theory Spec2Isabelle
  imports Main "HOL-Library.Word"
begin

section \<open>The AccountableAnonFhe contract\<close>

text \<open>
  A shallow embedding of the Solidity contract \<open>AccountableAnonFhe\<close> (the second document
  of \<open>src/frontend/web/src/App.tsx\<close>, lines 669 to 912). Storage is a record whose
  fields are the contract's state variables; a Solidity \<open>mapping\<close> is a total function
  (every key reads its default until it is written). Each external function takes
  \<open>msg.sender\<close> and \<open>block.timestamp\<close> where it reads them, and returns either the
  error it reverts with or the storage after the call. Arithmetic on \<open>uint256\<close> is
  checked, as in Solidity 0.8: an overflow is the error \<open>Panic\<close>.
\<close>

subsection \<open>Types\<close>

type_synonym address = "160 word"
type_synonym uint256 = "256 word"
type_synonym bytes32 = "256 word"
type_synonym euint32 = bytes32
type_synonym ebool = bytes32
type_synonym bytes = "8 word list"

record DecryptionContext =
  batchId :: uint256
  stateHash :: bytes32
  processed :: bool

datatype event =
    OwnershipTransferred address address
  | ProviderAdded address
  | ProviderRemoved address
  | ContractPaused address
  | ContractUnpaused address
  | CooldownSecondsSet uint256 uint256
  | BatchOpened uint256
  | BatchClosed uint256
  | Submission uint256 uint256 address
  | DecryptionRequested uint256 uint256
  | DecryptionCompleted uint256 uint256 "uint256 list" "bool list"

text \<open>
  The nine custom errors of the contract, and the two reverts the language adds:
  \<open>Panic\<close> (checked arithmetic) and \<open>Revert\<close> (a failed \<open>abi.decode\<close> or an
  out-of-range slice, which carry no error data).
\<close>

datatype error =
    NotOwner
  | NotProvider
  | Paused
  | CooldownActive
  | BatchClosedOrInvalid
  | InvalidCooldown
  | ReplayDetected
  | StateMismatch
  | InvalidProof
  | Panic
  | Revert

record storage =
  owner :: address
  isProvider :: "address \<Rightarrow> bool"
  paused :: bool
  cooldownSeconds :: uint256
  lastSubmissionTime :: "address \<Rightarrow> uint256"
  lastDecryptionRequestTime :: "address \<Rightarrow> uint256"
  currentBatchId :: uint256
  isBatchOpen :: "uint256 \<Rightarrow> bool"
  submissionsInBatch :: "uint256 \<Rightarrow> uint256"
  encryptedReputationUpdates :: "uint256 \<Rightarrow> uint256 \<Rightarrow> euint32"
  encryptedIsMalicious :: "uint256 \<Rightarrow> uint256 \<Rightarrow> ebool"
  submissionsCount :: "uint256 \<Rightarrow> uint256"
  decryptionContexts :: "uint256 \<Rightarrow> DecryptionContext"
  events :: "event list"

text \<open>
  What the contract calls but does not define: its own address, \<open>keccak256\<close> composed
  with \<open>abi.encode\<close> (a function of the handle list and an address), and the oracle's
  \<open>FHE.checkSignatures\<close> (true when it returns, false when it reverts). They are
  parameters of the model. \<open>FHE.toBytes32\<close> unwraps a handle and is the identity here;
  the request id that \<open>FHE.requestDecryption\<close> returns is an argument of
  \<open>requestBatchDecryption\<close>.
\<close>

record environment =
  thisAddress :: address
  keccak256_encode :: "bytes32 list \<Rightarrow> address \<Rightarrow> bytes32"
  checkSignatures :: "uint256 \<Rightarrow> bytes \<Rightarrow> bytes \<Rightarrow> bool"

subsection \<open>Checked arithmetic\<close>

definition checked_add :: "uint256 \<Rightarrow> uint256 \<Rightarrow> uint256 option" where
  "checked_add a b = (if unat a + unat b < 2 ^ 256 then Some (a + b) else None)"

definition checked_mul :: "uint256 \<Rightarrow> uint256 \<Rightarrow> uint256 option" where
  "checked_mul a b = (if unat a * unat b < 2 ^ 256 then Some (a * b) else None)"

subsection \<open>Modifiers and internal functions\<close>

definition onlyOwner :: "address \<Rightarrow> storage \<Rightarrow> error option" where
  "onlyOwner sender s = (if sender \<noteq> owner s then Some NotOwner else None)"

definition onlyProvider :: "address \<Rightarrow> storage \<Rightarrow> error option" where
  "onlyProvider sender s = (if \<not> isProvider s sender then Some NotProvider else None)"

definition whenNotPaused :: "storage \<Rightarrow> error option" where
  "whenNotPaused s = (if paused s then Some Paused else None)"

text \<open>
  \<open>respectCooldown\<close> reads \<open>lastSubmissionTime[msg.sender]\<close>, whichever function it
  guards.
\<close>

definition respectCooldown :: "address \<Rightarrow> uint256 \<Rightarrow> storage \<Rightarrow> error option" where
  "respectCooldown sender now s =
     (case checked_add (lastSubmissionTime s sender) (cooldownSeconds s) of
        None \<Rightarrow> Some Panic
      | Some limit \<Rightarrow> if now < limit then Some CooldownActive else None)"

definition isValidBatch :: "storage \<Rightarrow> uint256 \<Rightarrow> bool" where
  "isValidBatch s b = (b > 0 \<and> b \<le> currentBatchId s \<and> isBatchOpen s b)"

definition hashCiphertexts :: "environment \<Rightarrow> bytes32 list \<Rightarrow> bytes32" where
  "hashCiphertexts env cts = keccak256_encode env cts (thisAddress env)"

text \<open>
  The loop shared by \<open>requestBatchDecryption\<close> and \<open>myCallback\<close>:
  \<^verbatim>\<open>for (i = 0; i < numSubmissions; i++) {
    cts[i] = FHE.toBytes32(encryptedReputationUpdates[_batchId][i]);
    cts[i + numSubmissions] = FHE.toBytes32(encryptedIsMalicious[_batchId][i]); }\<close>
  over an array of \<open>2 * numSubmissions\<close> zero words.
\<close>

function fillCts :: "storage \<Rightarrow> uint256 \<Rightarrow> nat \<Rightarrow> nat \<Rightarrow> bytes32 list \<Rightarrow> bytes32 list" where
  "fillCts s b n i cts =
     (if i < n
      then fillCts s b n (Suc i)
             (cts[i := encryptedReputationUpdates s b (of_nat i),
                  i + n := encryptedIsMalicious s b (of_nat i)])
      else cts)"
  by pat_completeness auto
termination
  by (relation "measure (\<lambda>(s, b, n, i, cts). n - i)") auto

declare fillCts.simps [simp del]

text \<open>
  \<open>new bytes32[](2 * numSubmissions)\<close> followed by the loop; the multiplication is
  checked.
\<close>

definition collectCts :: "storage \<Rightarrow> uint256 \<Rightarrow> error + bytes32 list" where
  "collectCts s b =
     (let numSubmissions = submissionsCount s b in
      case checked_mul 2 numSubmissions of
        None \<Rightarrow> Inl Panic
      | Some len \<Rightarrow>
          Inr (fillCts s b (unat numSubmissions) 0 (replicate (unat len) 0)))"

subsection \<open>Access control, pause and cooldown\<close>

definition constructor :: "address \<Rightarrow> storage" where
  "constructor sender =
     \<lparr> owner = sender,
       isProvider = (\<lambda>_. False)(sender := True),
       paused = False,
       cooldownSeconds = 60,
       lastSubmissionTime = (\<lambda>_. 0),
       lastDecryptionRequestTime = (\<lambda>_. 0),
       currentBatchId = 0,
       isBatchOpen = (\<lambda>_. False),
       submissionsInBatch = (\<lambda>_. 0),
       encryptedReputationUpdates = (\<lambda>_ _. 0),
       encryptedIsMalicious = (\<lambda>_ _. 0),
       submissionsCount = (\<lambda>_. 0),
       decryptionContexts = (\<lambda>_. \<lparr> batchId = 0, stateHash = 0, processed = False \<rparr>),
       events = [OwnershipTransferred 0 sender, ProviderAdded sender] \<rparr>"

definition transferOwnership :: "address \<Rightarrow> address \<Rightarrow> storage \<Rightarrow> error + storage" where
  "transferOwnership sender newOwner s =
     (case onlyOwner sender s of
        Some e \<Rightarrow> Inl e
      | None \<Rightarrow>
          (let previousOwner = owner s in
           Inr (s\<lparr> owner := newOwner,
                   events := events s @ [OwnershipTransferred previousOwner newOwner] \<rparr>)))"

definition addProvider :: "address \<Rightarrow> address \<Rightarrow> storage \<Rightarrow> error + storage" where
  "addProvider sender provider s =
     (case onlyOwner sender s of
        Some e \<Rightarrow> Inl e
      | None \<Rightarrow>
          (if \<not> isProvider s provider
           then Inr (s\<lparr> isProvider := (isProvider s)(provider := True),
                        events := events s @ [ProviderAdded provider] \<rparr>)
           else Inr s))"

definition removeProvider :: "address \<Rightarrow> address \<Rightarrow> storage \<Rightarrow> error + storage" where
  "removeProvider sender provider s =
     (case onlyOwner sender s of
        Some e \<Rightarrow> Inl e
      | None \<Rightarrow>
          (if isProvider s provider
           then Inr (s\<lparr> isProvider := (isProvider s)(provider := False),
                        events := events s @ [ProviderRemoved provider] \<rparr>)
           else Inr s))"

definition pause :: "address \<Rightarrow> storage \<Rightarrow> error + storage" where
  "pause sender s =
     (case onlyOwner sender s of
        Some e \<Rightarrow> Inl e
      | None \<Rightarrow>
          (case whenNotPaused s of
             Some e \<Rightarrow> Inl e
           | None \<Rightarrow>
               Inr (s\<lparr> paused := True, events := events s @ [ContractPaused sender] \<rparr>)))"

definition unpause :: "address \<Rightarrow> storage \<Rightarrow> error + storage" where
  "unpause sender s =
     (case onlyOwner sender s of
        Some e \<Rightarrow> Inl e
      | None \<Rightarrow>
          (if \<not> paused s then Inl Paused
           else Inr (s\<lparr> paused := False, events := events s @ [ContractUnpaused sender] \<rparr>)))"

definition setCooldownSeconds :: "address \<Rightarrow> uint256 \<Rightarrow> storage \<Rightarrow> error + storage" where
  "setCooldownSeconds sender newCooldownSeconds s =
     (case onlyOwner sender s of
        Some e \<Rightarrow> Inl e
      | None \<Rightarrow>
          (if newCooldownSeconds = 0 then Inl InvalidCooldown
           else
             (let oldCooldown = cooldownSeconds s in
              Inr (s\<lparr> cooldownSeconds := newCooldownSeconds,
                      events := events s @ [CooldownSecondsSet oldCooldown newCooldownSeconds] \<rparr>))))"

subsection \<open>Batches and submissions\<close>

definition openBatch :: "address \<Rightarrow> storage \<Rightarrow> error + storage" where
  "openBatch sender s =
     (case onlyOwner sender s of
        Some e \<Rightarrow> Inl e
      | None \<Rightarrow>
          (case whenNotPaused s of
             Some e \<Rightarrow> Inl e
           | None \<Rightarrow>
               (case checked_add (currentBatchId s) 1 of
                  None \<Rightarrow> Inl Panic
                | Some newId \<Rightarrow>
                    Inr (s\<lparr> currentBatchId := newId,
                            isBatchOpen := (isBatchOpen s)(newId := True),
                            submissionsInBatch := (submissionsInBatch s)(newId := 0),
                            events := events s @ [BatchOpened newId] \<rparr>))))"

definition closeBatch :: "address \<Rightarrow> storage \<Rightarrow> error + storage" where
  "closeBatch sender s =
     (case onlyOwner sender s of
        Some e \<Rightarrow> Inl e
      | None \<Rightarrow>
          (case whenNotPaused s of
             Some e \<Rightarrow> Inl e
           | None \<Rightarrow>
               (if \<not> isBatchOpen s (currentBatchId s) then Inl BatchClosedOrInvalid
                else Inr (s\<lparr> isBatchOpen := (isBatchOpen s)(currentBatchId s := False),
                             events := events s @ [BatchClosed (currentBatchId s)] \<rparr>))))"

text \<open>
  The two calls of \<open>_initIfNeeded\<close> assign to a copy of their argument and have no
  effect on storage or on the value stored afterwards; the model leaves them out.
\<close>

definition submitReputationUpdate ::
  "address \<Rightarrow> uint256 \<Rightarrow> uint256 \<Rightarrow> euint32 \<Rightarrow> ebool \<Rightarrow> storage \<Rightarrow> error + storage" where
  "submitReputationUpdate sender now b encryptedReputationDelta encryptedMaliciousFlag s =
     (case onlyProvider sender s of
        Some e \<Rightarrow> Inl e
      | None \<Rightarrow>
     (case whenNotPaused s of
        Some e \<Rightarrow> Inl e
      | None \<Rightarrow>
     (case respectCooldown sender now s of
        Some e \<Rightarrow> Inl e
      | None \<Rightarrow>
     (if \<not> isValidBatch s b then Inl BatchClosedOrInvalid
      else
        (let submissionIndex = submissionsInBatch s b in
         case checked_add (submissionsInBatch s b) 1 of
           None \<Rightarrow> Inl Panic
         | Some inBatch \<Rightarrow>
        (case checked_add (submissionsCount s b) 1 of
           None \<Rightarrow> Inl Panic
         | Some cnt \<Rightarrow>
             Inr (s\<lparr> encryptedReputationUpdates :=
                       (encryptedReputationUpdates s)
                         (b := (encryptedReputationUpdates s b)
                                 (submissionIndex := encryptedReputationDelta)),
                     encryptedIsMalicious :=
                       (encryptedIsMalicious s)
                         (b := (encryptedIsMalicious s b)
                                 (submissionIndex := encryptedMaliciousFlag)),
                     submissionsInBatch := (submissionsInBatch s)(b := inBatch),
                     submissionsCount := (submissionsCount s)(b := cnt),
                     lastSubmissionTime := (lastSubmissionTime s)(sender := now),
                     events := events s @ [Submission b submissionIndex sender] \<rparr>)))))))"

subsection \<open>Decryption requests and the callback\<close>

definition requestBatchDecryption ::
  "environment \<Rightarrow> address \<Rightarrow> uint256 \<Rightarrow> uint256 \<Rightarrow> uint256 \<Rightarrow> storage \<Rightarrow> error + storage" where
  "requestBatchDecryption env sender now b requestId s =
     (case onlyOwner sender s of
        Some e \<Rightarrow> Inl e
      | None \<Rightarrow>
     (case whenNotPaused s of
        Some e \<Rightarrow> Inl e
      | None \<Rightarrow>
     (case respectCooldown sender now s of
        Some e \<Rightarrow> Inl e
      | None \<Rightarrow>
     (if submissionsCount s b = 0 then Inl BatchClosedOrInvalid
      else
        (case collectCts s b of
           Inl e \<Rightarrow> Inl e
         | Inr cts \<Rightarrow>
             Inr (s\<lparr> decryptionContexts :=
                       (decryptionContexts s)
                         (requestId := \<lparr> batchId = b,
                                         stateHash = hashCiphertexts env cts,
                                         processed = False \<rparr>),
                     lastDecryptionRequestTime :=
                       (lastDecryptionRequestTime s)(sender := now),
                     events := events s @ [DecryptionRequested requestId b] \<rparr>))))))"

text \<open>
  \<open>abi.decode\<close> of a single static value reads the first 32 bytes of its argument as a
  big-endian word and reverts when there are fewer than 32 bytes or when the word is not
  a value of the target type. A slice \<open>data[offset:]\<close> reverts when the offset is
  past the end; the source takes it of a \<open>bytes memory\<close> value, and the model gives it
  the meaning the language defines for calldata.
\<close>

definition be_nat :: "bytes \<Rightarrow> nat" where
  "be_nat data = foldl (\<lambda>acc b. acc * 256 + unat b) 0 data"

definition abi_decode_uint32 :: "bytes \<Rightarrow> uint256 option" where
  "abi_decode_uint32 data =
     (if length data < 32 then None
      else if be_nat (take 32 data) < 2 ^ 32 then Some (of_nat (be_nat (take 32 data)))
      else None)"

definition abi_decode_bool :: "bytes \<Rightarrow> bool option" where
  "abi_decode_bool data =
     (if length data < 32 then None
      else if be_nat (take 32 data) = 0 then Some False
      else if be_nat (take 32 data) = 1 then Some True
      else None)"

definition slice_from :: "bytes \<Rightarrow> nat \<Rightarrow> bytes option" where
  "slice_from data offset = (if length data < offset then None else Some (drop offset data))"

text \<open>
  The decode loop of \<open>myCallback\<close>:
  \<^verbatim>\<open>uint256 offset = 0;
  for (uint256 i = 0; i < numSubmissions; i++) {
    reputationUpdates[i] = abi.decode(cleartexts, (uint32));
    offset += 4;
    isMaliciousFlags[i] = abi.decode(cleartexts[offset:], (bool));
    offset += 1; }\<close>
\<close>

function decodeLoop ::
  "bytes \<Rightarrow> nat \<Rightarrow> nat \<Rightarrow> uint256 \<Rightarrow> uint256 list \<Rightarrow> bool list
     \<Rightarrow> error + (uint256 list \<times> bool list)" where
  "decodeLoop cleartexts n i offset reputationUpdates isMaliciousFlags =
     (if i < n
      then
        (case abi_decode_uint32 cleartexts of
           None \<Rightarrow> Inl Revert
         | Some delta \<Rightarrow>
        (case checked_add offset 4 of
           None \<Rightarrow> Inl Panic
         | Some offset4 \<Rightarrow>
        (case slice_from cleartexts (unat offset4) of
           None \<Rightarrow> Inl Revert
         | Some rest \<Rightarrow>
        (case abi_decode_bool rest of
           None \<Rightarrow> Inl Revert
         | Some flag \<Rightarrow>
        (case checked_add offset4 1 of
           None \<Rightarrow> Inl Panic
         | Some offset5 \<Rightarrow>
             decodeLoop cleartexts n (Suc i) offset5
               (reputationUpdates[i := delta]) (isMaliciousFlags[i := flag]))))))
      else Inr (reputationUpdates, isMaliciousFlags))"
  by pat_completeness auto
termination
  by (relation "measure (\<lambda>(c, n, i, off, r, f). n - i)") auto

declare decodeLoop.simps [simp del]

text \<open>
  \<open>myCallback\<close> has no modifier: anyone may call it. A revert of
  \<open>FHE.checkSignatures\<close> is caught and becomes \<open>InvalidProof\<close>; a revert inside the
  success block of the \<open>try\<close> is not caught.
\<close>

definition myCallback ::
  "environment \<Rightarrow> uint256 \<Rightarrow> bytes \<Rightarrow> bytes \<Rightarrow> storage \<Rightarrow> error + storage" where
  "myCallback env requestId cleartexts proofBytes s =
     (if processed (decryptionContexts s requestId) then Inl ReplayDetected
      else
        (let b = batchId (decryptionContexts s requestId);
             numSubmissions = unat (submissionsCount s b) in
         case collectCts s b of
           Inl e \<Rightarrow> Inl e
         | Inr currentCts \<Rightarrow>
             (if hashCiphertexts env currentCts \<noteq> stateHash (decryptionContexts s requestId)
              then Inl StateMismatch
              else if \<not> checkSignatures env requestId cleartexts proofBytes
              then Inl InvalidProof
              else
                (case decodeLoop cleartexts numSubmissions 0 0
                        (replicate numSubmissions 0) (replicate numSubmissions False) of
                   Inl e \<Rightarrow> Inl e
                 | Inr (reputationUpdates, isMaliciousFlags) \<Rightarrow>
                     Inr (s\<lparr> decryptionContexts :=
                               (decryptionContexts s)
                                 (requestId := (decryptionContexts s requestId)
                                                 \<lparr> processed := True \<rparr>),
                             events := events s @
                               [DecryptionCompleted requestId b
                                  reputationUpdates isMaliciousFlags] \<rparr>)))))"

subsection \<open>Transactions\<close>

text \<open>
  A transaction is a call of one external function with its \<open>msg.sender\<close> and
  \<open>block.timestamp\<close>. A call that reverts leaves storage as it was; transactions run one
  after the other.
\<close>

datatype call =
    TransferOwnership address
  | AddProvider address
  | RemoveProvider address
  | Pause
  | Unpause
  | SetCooldownSeconds uint256
  | OpenBatch
  | CloseBatch
  | SubmitReputationUpdate uint256 euint32 ebool
  | RequestBatchDecryption uint256 uint256
  | MyCallback uint256 bytes bytes

type_synonym transaction = "address \<times> uint256 \<times> call"

fun dispatch :: "environment \<Rightarrow> transaction \<Rightarrow> storage \<Rightarrow> error + storage" where
  "dispatch env (sender, now, TransferOwnership newOwner) s = transferOwnership sender newOwner s"
| "dispatch env (sender, now, AddProvider p) s = addProvider sender p s"
| "dispatch env (sender, now, RemoveProvider p) s = removeProvider sender p s"
| "dispatch env (sender, now, Pause) s = pause sender s"
| "dispatch env (sender, now, Unpause) s = unpause sender s"
| "dispatch env (sender, now, SetCooldownSeconds c) s = setCooldownSeconds sender c s"
| "dispatch env (sender, now, OpenBatch) s = openBatch sender s"
| "dispatch env (sender, now, CloseBatch) s = closeBatch sender s"
| "dispatch env (sender, now, SubmitReputationUpdate b d f) s =
     submitReputationUpdate sender now b d f s"
| "dispatch env (sender, now, RequestBatchDecryption b requestId) s =
     requestBatchDecryption env sender now b requestId s"
| "dispatch env (sender, now, MyCallback requestId cleartexts proofBytes) s =
     myCallback env requestId cleartexts proofBytes s"

definition exec :: "environment \<Rightarrow> transaction \<Rightarrow> storage \<Rightarrow> storage" where
  "exec env tx s = (case dispatch env tx s of Inl e \<Rightarrow> s | Inr s' \<Rightarrow> s')"

fun run :: "environment \<Rightarrow> transaction list \<Rightarrow> storage \<Rightarrow> storage" where
  "run env [] s = s"
| "run env (tx # txs) s = run env txs (exec env tx s)"

subsection \<open>Traces and the handle list\<close>

text \<open>
  \<open>requestsId r tx\<close>: the transaction is a \<open>requestBatchDecryption\<close> to which the oracle
  hands the request id \<open>r\<close>. The oracle is assumed to hand out every id once.
\<close>

fun requestsId :: "uint256 \<Rightarrow> transaction \<Rightarrow> bool" where
  "requestsId r (sender, now, RequestBatchDecryption b requestId) = (requestId = r)"
| "requestsId r (sender, now, c) = False"

text \<open>
  The ordered ciphertext handles of a batch: the delta handles of submissions
  \<open>0 .. submissionsCount - 1\<close>, then their flag handles. \<open>collectCts\<close> computes this
  list (lemma \<open>collectCts_cases\<close> below).
\<close>

definition orderedHandles :: "storage \<Rightarrow> uint256 \<Rightarrow> bytes32 list" where
  "orderedHandles s b =
     map (\<lambda>k. encryptedReputationUpdates s b (of_nat k)) [0..<unat (submissionsCount s b)]
     @ map (\<lambda>k. encryptedIsMalicious s b (of_nat k)) [0..<unat (submissionsCount s b)]"

text \<open>The digest does not collide on two given handle lists.\<close>

definition collision_free_on :: "environment \<Rightarrow> bytes32 list \<Rightarrow> bytes32 list \<Rightarrow> bool" where
  "collision_free_on env xs ys =
     (xs \<noteq> ys \<longrightarrow> hashCiphertexts env xs \<noteq> hashCiphertexts env ys)"

text \<open>
  No context was stored under \<open>r\<close>: the mapping still reads its default there; and batch
  0, which the default context names, has no submission.
\<close>

definition fresh_context :: "storage \<Rightarrow> uint256 \<Rightarrow> bool" where
  "fresh_context s r =
     (submissionsCount s 0 = 0 \<and>
      decryptionContexts s r = \<lparr> batchId = 0, stateHash = 0, processed = False \<rparr>)"

subsection \<open>A sample environment and sample states\<close>

text \<open>
  For evaluating the model on concrete inputs: a contract address, a polynomial fold in
  the place of \<open>keccak256(abi.encode(cts, address(this)))\<close>, and an oracle that accepts
  exactly the one-byte proof \<open>0x01\<close>. The general theorems below hold for every
  environment; this one only serves where a concrete run is computed. Address 1 deploys
  the contract.
\<close>

definition sample_env :: environment where
  "sample_env =
     \<lparr> thisAddress = 0xC0DE,
       keccak256_encode = (\<lambda>cts a. foldl (\<lambda>h c. 31 * h + c) (ucast a + 1) cts),
       checkSignatures = (\<lambda>requestId cleartexts proofBytes. proofBytes = [1]) \<rparr>"

definition sample_open :: storage where
  "sample_open = run sample_env [(1, 0, OpenBatch)] (constructor 1)"

definition sample_submitted :: storage where
  "sample_submitted =
     run sample_env [(1, 0, OpenBatch), (1, 100, SubmitReputationUpdate 1 11 22)]
       (constructor 1)"

definition sample_pending :: storage where
  "sample_pending = exec sample_env (1, 200, RequestBatchDecryption 1 7) sample_submitted"

definition sample_requested :: storage where
  "sample_requested =
     run sample_env
       [(1, 0, OpenBatch), (1, 100, SubmitReputationUpdate 1 11 22),
        (1, 200, SubmitReputationUpdate 1 33 44), (1, 300, RequestBatchDecryption 1 7)]
       (constructor 1)"

definition sample_two_open :: storage where
  "sample_two_open =
     run sample_env
       [(1, 0, OpenBatch), (1, 10, OpenBatch), (1, 100, SubmitReputationUpdate 2 11 22)]
       (constructor 1)"

text \<open>
  Three cleartext buffers for the batch of \<open>sample_requested\<close> (two submissions): 41
  bytes, all zero but the last; the packed layout of the loop's comments (4 bytes of
  delta, 1 byte of flag, per submission) for the values 5, true, 9, false; and the ABI
  encoding (one 32-byte word per value) of the same values.
\<close>

definition cleartexts_41 :: bytes where
  "cleartexts_41 = replicate 40 0 @ [1]"

definition cleartexts_packed :: bytes where
  "cleartexts_packed = [0, 0, 0, 5, 1, 0, 0, 0, 9, 0]"

definition cleartexts_abi :: bytes where
  "cleartexts_abi =
     replicate 31 0 @ [5] @ replicate 31 0 @ [1] @ replicate 31 0 @ [9] @ replicate 32 0"

definition sample_processed :: storage where
  "sample_processed =
     exec sample_env (9, 350, MyCallback 7 cleartexts_41 [1]) sample_requested"

section \<open>Properties\<close>

subsection \<open>Helper facts\<close>

lemmas guards = onlyOwner_def onlyProvider_def whenNotPaused_def

lemmas op_defs = transferOwnership_def addProvider_def removeProvider_def pause_def unpause_def
  setCooldownSeconds_def openBatch_def closeBatch_def submitReputationUpdate_def
  requestBatchDecryption_def myCallback_def guards Let_def

lemmas eval_defs = constructor_def exec_def op_defs checked_add_def checked_mul_def
  isValidBatch_def respectCooldown_def sample_env_def hashCiphertexts_def

lemma fillCts_length: "length (fillCts s b n i cts) = length cts"
  by (induction s b n i cts rule: fillCts.induct) (subst fillCts.simps, simp)

lemma fillCts_eq:
  "i \<le> n \<Longrightarrow> length cts = 2 * n \<Longrightarrow>
   fillCts s b n i cts =
     take i cts @ map (\<lambda>k. encryptedReputationUpdates s b (of_nat k)) [i..<n]
       @ take i (drop n cts) @ map (\<lambda>k. encryptedIsMalicious s b (of_nat k)) [i..<n]"
proof (induction s b n i cts rule: fillCts.induct)
  case (1 s b n i cts)
  show ?case
  proof (cases "i < n")
    case True
    let ?cts = "cts[i := encryptedReputationUpdates s b (of_nat i),
                  i + n := encryptedIsMalicious s b (of_nat i)]"
    have "fillCts s b n i cts = fillCts s b n (Suc i) ?cts"
      using True by (subst fillCts.simps) simp
    also have "\<dots> =
        take (Suc i) ?cts @ map (\<lambda>k. encryptedReputationUpdates s b (of_nat k)) [Suc i..<n]
          @ take (Suc i) (drop n ?cts)
          @ map (\<lambda>k. encryptedIsMalicious s b (of_nat k)) [Suc i..<n]"
      using 1 True by simp
    finally show ?thesis
      using True 1(2,3)
      by (simp add: take_Suc_conv_app_nth upt_conv_Cons drop_update_swap nth_list_update)
  next
    case False
    with 1 have "i = n" by simp
    then show ?thesis
      using 1(3) by (subst fillCts.simps) (simp add: append_eq_conv_conj[symmetric])
  qed
qed

text \<open>
  The array the two functions hash is the batch's ordered handle list; the call panics
  when \<open>2 * numSubmissions\<close> overflows.
\<close>

lemma collectCts_cases:
  "collectCts s b =
     (if unat (submissionsCount s b) < 2 ^ 255 then Inr (orderedHandles s b) else Inl Panic)"
proof (cases "unat (submissionsCount s b) < 2 ^ 255")
  case True
  then have m: "unat (2 * submissionsCount s b) = 2 * unat (submissionsCount s b)"
    by (simp add: unat_word_ariths)
  show ?thesis
    using True
    by (simp add: collectCts_def checked_mul_def Let_def m fillCts_eq orderedHandles_def)
next
  case False
  then have "\<not> 2 * unat (submissionsCount s b) < 2 ^ 256" by simp
  then show ?thesis using False by (simp add: collectCts_def checked_mul_def Let_def)
qed

lemma length_orderedHandles: "length (orderedHandles s b) = 2 * unat (submissionsCount s b)"
  by (simp add: orderedHandles_def)

lemma collectCts_zero: "submissionsCount s b = 0 \<Longrightarrow> collectCts s b = Inr []"
  by (simp add: collectCts_cases orderedHandles_def)

lemma run_append: "run env (xs @ ys) s = run env ys (run env xs s)"
  by (induction xs arbitrary: s) auto

text \<open>
  What a transaction other than a request under \<open>r\<close> can do to the context stored
  under \<open>r\<close>: nothing to its batch and digest, and it never clears \<open>processed\<close>.
\<close>

lemma dispatch_context:
  assumes "dispatch env (sender, now, c) s = Inr s'" "\<not> requestsId r (sender, now, c)"
  shows "batchId (decryptionContexts s' r) = batchId (decryptionContexts s r) \<and>
         stateHash (decryptionContexts s' r) = stateHash (decryptionContexts s r) \<and>
         (processed (decryptionContexts s r) \<longrightarrow> processed (decryptionContexts s' r))"
  using assms
  by (cases c) (auto simp: op_defs split: option.splits if_splits sum.splits prod.splits)

lemma exec_context:
  assumes "\<not> requestsId r tx"
  shows "batchId (decryptionContexts (exec env tx s) r) = batchId (decryptionContexts s r) \<and>
         stateHash (decryptionContexts (exec env tx s) r) = stateHash (decryptionContexts s r) \<and>
         (processed (decryptionContexts s r) \<longrightarrow>
            processed (decryptionContexts (exec env tx s) r))"
proof (cases "dispatch env tx s")
  case (Inl e)
  then show ?thesis by (simp add: exec_def)
next
  case (Inr s')
  obtain sender now c where tx: "tx = (sender, now, c)" by (cases tx)
  from Inr have "exec env tx s = s'" by (simp add: exec_def)
  then show ?thesis
    using dispatch_context [of env sender now c s s' r] Inr assms tx by simp
qed

lemma run_context:
  assumes "\<forall>tx \<in> set txs. \<not> requestsId r tx"
  shows "batchId (decryptionContexts (run env txs s) r) = batchId (decryptionContexts s r) \<and>
         stateHash (decryptionContexts (run env txs s) r) = stateHash (decryptionContexts s r) \<and>
         (processed (decryptionContexts s r) \<longrightarrow>
            processed (decryptionContexts (run env txs s) r))"
  using assms
proof (induction txs arbitrary: s)
  case Nil
  then show ?case by simp
next
  case (Cons tx txs)
  then show ?case using exec_context [of r tx env s] by simp
qed

lemma myCallback_marks:
  "myCallback env r cleartexts proofBytes s = Inr s1 \<Longrightarrow> processed (decryptionContexts s1 r)"
  by (auto simp: myCallback_def Let_def split: if_splits sum.splits prod.splits)

text \<open>The submission counter of a batch never decreases, and a submission adds one.\<close>

lemma dispatch_count_mono:
  assumes "dispatch env (sender, now, c) s = Inr s'"
  shows "unat (submissionsCount s b) \<le> unat (submissionsCount s' b)"
  using assms
  by (cases c)
    (auto simp: op_defs checked_add_def unat_word_ariths
      split: option.splits if_splits sum.splits prod.splits)

lemma exec_count_mono:
  "unat (submissionsCount s b) \<le> unat (submissionsCount (exec env tx s) b)"
proof (cases "dispatch env tx s")
  case (Inl e)
  then show ?thesis by (simp add: exec_def)
next
  case (Inr s')
  obtain sender now c where tx: "tx = (sender, now, c)" by (cases tx)
  from Inr have "exec env tx s = s'" by (simp add: exec_def)
  then show ?thesis using dispatch_count_mono [of env sender now c s s' b] Inr tx by simp
qed

lemma run_count_mono:
  "unat (submissionsCount s b) \<le> unat (submissionsCount (run env txs s) b)"
proof (induction txs arbitrary: s)
  case Nil
  then show ?case by simp
next
  case (Cons tx txs)
  show ?case using exec_count_mono [of s b env tx] Cons [of "exec env tx s"] by simp
qed

lemma submit_count_strict:
  assumes "submitReputationUpdate sender now b d f s = Inr s'"
  shows "unat (submissionsCount s' b) = unat (submissionsCount s b) + 1"
  using assms
  by (auto simp: op_defs checked_add_def unat_word_ariths split: option.splits if_splits)

lemma request_stores:
  assumes "requestBatchDecryption env sender now b r s0 = Inr s1"
  shows "decryptionContexts s1 r =
           \<lparr> batchId = b, stateHash = hashCiphertexts env (orderedHandles s0 b),
             processed = False \<rparr> \<and>
         orderedHandles s1 b = orderedHandles s0 b \<and>
         submissionsCount s1 b = submissionsCount s0 b"
  using assms
  by (auto simp: requestBatchDecryption_def guards collectCts_cases orderedHandles_def
      split: option.splits if_splits)

text \<open>A context that was never stored stays so, as long as the empty list's digest is not 0.\<close>

lemma callback_fresh:
  assumes "hashCiphertexts env [] \<noteq> 0" "fresh_context s r"
  shows "myCallback env r cleartexts proofBytes s = Inl StateMismatch"
  using assms by (simp add: myCallback_def Let_def fresh_context_def collectCts_zero)

lemma dispatch_fresh:
  assumes "hashCiphertexts env [] \<noteq> 0" "fresh_context s r"
    "dispatch env (sender, now, c) s = Inr s'" "\<not> requestsId r (sender, now, c)"
  shows "fresh_context s' r"
proof (cases c)
  case (MyCallback r' ct pf)
  show ?thesis
  proof (cases "r' = r")
    case True
    then show ?thesis using assms MyCallback callback_fresh [OF assms(1,2)] by simp
  next
    case False
    then show ?thesis
      using assms MyCallback
      by (auto simp: myCallback_def Let_def fresh_context_def
          split: if_splits sum.splits prod.splits)
  qed
next
  case (SubmitReputationUpdate b d f)
  then show ?thesis
    using assms
    by (auto simp: submitReputationUpdate_def guards Let_def fresh_context_def isValidBatch_def
        split: option.splits if_splits)
qed (use assms in \<open>auto simp: op_defs fresh_context_def split: option.splits if_splits sum.splits\<close>)

lemma exec_fresh:
  assumes "hashCiphertexts env [] \<noteq> 0" "fresh_context s r" "\<not> requestsId r tx"
  shows "fresh_context (exec env tx s) r"
proof (cases "dispatch env tx s")
  case (Inl e)
  then show ?thesis using assms by (simp add: exec_def)
next
  case (Inr s')
  obtain sender now c where tx: "tx = (sender, now, c)" by (cases tx)
  from Inr have "exec env tx s = s'" by (simp add: exec_def)
  then show ?thesis using dispatch_fresh [of env s r sender now c s'] Inr assms tx by simp
qed

lemma run_fresh:
  assumes "hashCiphertexts env [] \<noteq> 0" "fresh_context s r"
    "\<forall>tx \<in> set txs. \<not> requestsId r tx"
  shows "fresh_context (run env txs s) r"
  using assms(2,3)
proof (induction txs arbitrary: s)
  case Nil
  then show ?case by simp
next
  case (Cons tx txs)
  then show ?case using exec_fresh [OF assms(1), of s r tx] by simp
qed

text \<open>Guards of \<open>submitReputationUpdate\<close>.\<close>

lemma submit_fail:
  "\<not> isProvider s sender \<or> paused s \<or> respectCooldown sender now s \<noteq> None
     \<or> \<not> isValidBatch s b
   \<Longrightarrow> isl (submitReputationUpdate sender now b d f s)"
  by (auto simp: submitReputationUpdate_def guards split: option.splits)

lemma submit_ok:
  "submitReputationUpdate sender now b d f s = Inr s' \<Longrightarrow>
     isProvider s sender \<and> \<not> paused s \<and> respectCooldown sender now s = None \<and>
     isValidBatch s b \<and> lastSubmissionTime s' = (lastSubmissionTime s)(sender := now)"
  by (auto simp: submitReputationUpdate_def guards Let_def split: option.splits if_splits)

lemma checked_add_1: "unat x + 1 < 2 ^ 256 \<Longrightarrow> checked_add x 1 = Some (x + 1)"
  by (simp add: checked_add_def)

lemma one_le_pos: "1 \<le> (b::uint256) \<Longrightarrow> 0 < b"
  by (simp add: word_le_nat_alt word_less_nat_alt)

lemma submit_accepts:
  assumes "isProvider s sender" "\<not> paused s" "respectCooldown sender now s = None"
    "1 \<le> b" "b \<le> currentBatchId s" "isBatchOpen s b"
    "unat (submissionsInBatch s b) + 1 < 2 ^ 256" "unat (submissionsCount s b) + 1 < 2 ^ 256"
  shows "\<exists>s'. submitReputationUpdate sender now b d f s = Inr s' \<and>
            encryptedReputationUpdates s' b (submissionsInBatch s b) = d \<and>
            encryptedIsMalicious s' b (submissionsInBatch s b) = f \<and>
            submissionsCount s' b = submissionsCount s b + 1"
proof -
  have v: "isValidBatch s b"
    using assms(4-6) by (simp add: isValidBatch_def one_le_pos)
  show ?thesis
    using assms(1-3) v
    by (simp add: submitReputationUpdate_def guards Let_def
        checked_add_1 [OF assms(7)] checked_add_1 [OF assms(8)])
qed

lemma openBatch_keeps:
  assumes "openBatch sender s = Inr s1"
  shows "currentBatchId s1 = currentBatchId s + 1 \<and> isBatchOpen s1 (currentBatchId s1) \<and>
      (\<forall>b'. isBatchOpen s b' \<longrightarrow> isBatchOpen s1 b')"
  using assms
  by (auto simp: openBatch_def guards checked_add_def split: option.splits if_splits)

text \<open>Big-endian reading, for evaluating \<open>abi.decode\<close> on the sample buffers.\<close>

lemma foldl_be:
  "foldl (\<lambda>acc b. acc * 256 + unat b) a (ys :: bytes)
     = a * 256 ^ length ys + foldl (\<lambda>acc b. acc * 256 + unat b) 0 ys"
proof (induction ys arbitrary: a)
  case Nil
  then show ?case by simp
next
  case (Cons y ys)
  have "foldl (\<lambda>acc b. acc * 256 + unat b) a (y # ys)
      = (a * 256 + unat y) * 256 ^ length ys + foldl (\<lambda>acc b. acc * 256 + unat b) 0 ys"
    using Cons [of "a * 256 + unat y"] by simp
  moreover have "foldl (\<lambda>acc b. acc * 256 + unat b) 0 (y # ys)
      = unat y * 256 ^ length ys + foldl (\<lambda>acc b. acc * 256 + unat b) 0 ys"
    using Cons [of "unat y"] by simp
  ultimately show ?case
    by (simp only: length_Cons power_Suc add_mult_distrib mult.assoc add.assoc)
qed

lemma be_nat_append: "be_nat (xs @ ys) = be_nat xs * 256 ^ length ys + be_nat ys"
  unfolding be_nat_def foldl_append by (rule foldl_be)

lemma be_nat_Nil: "be_nat [] = 0"
  by (simp add: be_nat_def)

lemma be_nat_Cons: "be_nat (x # xs) = unat x * 256 ^ length xs + be_nat xs"
  using be_nat_append [of "[x]" xs] by (simp add: be_nat_def)

lemma be_nat_zeros: "be_nat (replicate k 0) = 0"
  by (induction k) (simp_all add: be_nat_Nil be_nat_Cons)

lemmas decode_defs = abi_decode_uint32_def abi_decode_bool_def slice_from_def
  checked_add_def be_nat_append be_nat_zeros be_nat_Cons be_nat_Nil

lemma replicate_2: "replicate 2 x = [x, x]"
  by (simp add: numeral_2_eq_2)

lemma decodeLoop_41:
  "decodeLoop cleartexts_41 2 0 0 (replicate 2 0) (replicate 2 False)
     = Inr ([0, 0], [False, True])"
  by (simp add: cleartexts_41_def decodeLoop.simps decode_defs replicate_2)

lemma decodeLoop_packed:
  "decodeLoop cleartexts_packed 2 0 0 (replicate 2 0) (replicate 2 False) = Inl Revert"
  by (simp add: cleartexts_packed_def decodeLoop.simps decode_defs replicate_2)

lemma decodeLoop_abi:
  "decodeLoop cleartexts_abi 2 0 0 (replicate 2 0) (replicate 2 False) = Inl Revert"
  by (simp add: cleartexts_abi_def decodeLoop.simps decode_defs replicate_2)

text \<open>
  Every delta a successful run of the decode loop writes is the decoding of the head of
  the whole buffer: the loop's offset plays no part in it.
\<close>

lemma decodeLoop_deltas:
  "decodeLoop cleartexts n i offset reps flags = Inr (reps', flags') \<Longrightarrow>
     length reps' = length reps \<and>
     (\<forall>k < length reps.
        reps' ! k =
          (if i \<le> k \<and> k < n then the (abi_decode_uint32 cleartexts) else reps ! k))"
proof (induction cleartexts n i offset reps flags rule: decodeLoop.induct)
  case (1 cleartexts n i offset reputationUpdates isMaliciousFlags)
  show ?case
  proof (cases "i < n")
    case True
    from "1.prems" True obtain delta offset4 rest flag offset5 where
      d: "abi_decode_uint32 cleartexts = Some delta" "checked_add offset 4 = Some offset4"
        "slice_from cleartexts (unat offset4) = Some rest" "abi_decode_bool rest = Some flag"
        "checked_add offset4 1 = Some offset5"
      and r: "decodeLoop cleartexts n (Suc i) offset5 (reputationUpdates[i := delta])
          (isMaliciousFlags[i := flag]) = Inr (reps', flags')"
      by (subst (asm) decodeLoop.simps) (auto split: option.splits)
    from "1.IH" [OF True d r] show ?thesis
      using d(1) True by (auto simp: nth_list_update)
  next
    case False
    with "1.prems" show ?thesis by (subst (asm) decodeLoop.simps) auto
  qed
qed

text \<open>Facts about the sample states.\<close>

lemma sample_env_empty: "hashCiphertexts sample_env [] \<noteq> 0"
  by (simp add: sample_env_def hashCiphertexts_def)

lemma sample_requested_context:
  "\<not> processed (decryptionContexts sample_requested 7)"
  "batchId (decryptionContexts sample_requested 7) = 1"
  "submissionsCount sample_requested 1 = 2"
  "hashCiphertexts sample_env (orderedHandles sample_requested 1)
     = stateHash (decryptionContexts sample_requested 7)"
  by (simp_all add: sample_requested_def eval_defs collectCts_cases orderedHandles_def
      upt_conv_Cons)

lemma sample_callback:
  "myCallback sample_env 7 cleartexts_41 [1] sample_requested =
     Inr (sample_requested
            \<lparr> decryptionContexts :=
                 (decryptionContexts sample_requested)
                   (7 := (decryptionContexts sample_requested 7)\<lparr> processed := True \<rparr>),
               events := events sample_requested @
                 [DecryptionCompleted 7 1 [0, 0] [False, True]] \<rparr>)"
proof -
  have cs: "checkSignatures sample_env 7 cleartexts_41 [1]"
    by (simp add: sample_env_def)
  show ?thesis
    using sample_requested_context
    by (simp add: myCallback_def Let_def cs collectCts_cases decodeLoop_41)
qed

lemma sample_pending_request:
  "requestBatchDecryption sample_env 1 200 1 7 sample_submitted = Inr sample_pending"
  by (simp add: sample_pending_def sample_submitted_def eval_defs collectCts_cases
      orderedHandles_def)

lemma sample_pending_run:
  "sample_pending =
     run sample_env
       [(1, 0, OpenBatch), (1, 100, SubmitReputationUpdate 1 11 22),
        (1, 200, RequestBatchDecryption 1 7)]
       (constructor 1)"
  by (simp add: sample_pending_def sample_submitted_def)

subsection \<open>Access control\<close>

text \<open>
  C9: \<open>transferOwnership\<close> has no guard on the new identity. For every \<open>newOwner\<close>, the
  zero address included, a call by the current owner succeeds; it assigns \<open>owner\<close> that
  value, emits \<open>OwnershipTransferred\<close> and changes nothing else. The pause flag is not
  consulted.
\<close>

theorem transferOwnership_unguarded:
  "sender = owner s \<Longrightarrow>
     transferOwnership sender newOwner s =
       Inr (s\<lparr> owner := newOwner,
               events := events s @ [OwnershipTransferred (owner s) newOwner] \<rparr>)"
  by (simp add: transferOwnership_def onlyOwner_def)

theorem transferOwnership_unguarded_witness:
  "owner (constructor 1) = 1 \<and>
   transferOwnership 1 0 (constructor 1) =
     Inr ((constructor 1)\<lparr> owner := 0,
            events := events (constructor 1) @ [OwnershipTransferred (owner (constructor 1)) 0] \<rparr>) \<and>
   owner (projr (transferOwnership 1 0 (constructor 1))) = 0"
  using transferOwnership_unguarded [of 1 "constructor 1" 0] by (simp add: constructor_def)

text \<open>
  C7, as the code has it: \<open>pause\<close> called by the owner while the contract is paused
  reverts with \<open>Paused\<close> (through \<open>whenNotPaused\<close>), and \<open>unpause\<close> called by the owner
  while it is not paused reverts with the same error \<open>Paused\<close>. The contract declares no
  \<open>AlreadyPaused\<close> or \<open>AlreadyUnpaused\<close> error.
\<close>

theorem pause_unpause_revert_Paused:
  "sender = owner s \<Longrightarrow>
     (paused s \<longrightarrow> pause sender s = Inl Paused) \<and>
     (\<not> paused s \<longrightarrow> unpause sender s = Inl Paused)"
  by (simp add: pause_def unpause_def onlyOwner_def whenNotPaused_def)

theorem pause_unpause_revert_Paused_witness:
  "owner (constructor 1) = 1 \<and> \<not> paused (constructor 1) \<and>
   unpause 1 (constructor 1) = Inl Paused \<and>
   owner ((constructor 1)\<lparr> paused := True \<rparr>) = 1 \<and> paused ((constructor 1)\<lparr> paused := True \<rparr>) \<and>
   pause 1 ((constructor 1)\<lparr> paused := True \<rparr>) = Inl Paused"
  using pause_unpause_revert_Paused [of 1 "constructor 1"]
    pause_unpause_revert_Paused [of 1 "(constructor 1)\<lparr> paused := True \<rparr>"]
  by (simp add: constructor_def)

text \<open>
  C7 as stated fails: after the owner has paused the contract, a second \<open>pause\<close> and an
  \<open>unpause\<close> of the fresh (unpaused) contract revert with one and the same error.
\<close>

theorem pause_unpause_same_error:
  "pause 1 (projr (pause 1 (constructor 1))) = unpause 1 (constructor 1) \<and>
   unpause 1 (constructor 1) = Inl Paused"
  by (simp add: pause_def unpause_def onlyOwner_def whenNotPaused_def constructor_def)

text \<open>
  C8, as the code has it: the owner is a provider right after construction, and a
  transaction keeps \<open>isProvider[owner]\<close> true unless it is \<open>removeProvider\<close> of the owner
  or \<open>transferOwnership\<close> to an address that is not a provider. Nothing but the
  constructor ties the provider flag to ownership.
\<close>

theorem owner_provider_preserved:
  "isProvider (constructor a) (owner (constructor a)) \<and>
   (isProvider s (owner s) \<and> c \<noteq> RemoveProvider (owner s) \<and>
    (\<forall>n. c = TransferOwnership n \<longrightarrow> isProvider s n) \<longrightarrow>
      isProvider (exec env (sender, now, c) s) (owner (exec env (sender, now, c) s)))"
proof (intro conjI impI)
  show "isProvider (constructor a) (owner (constructor a))"
    by (simp add: constructor_def)
next
  assume "isProvider s (owner s) \<and> c \<noteq> RemoveProvider (owner s) \<and>
    (\<forall>n. c = TransferOwnership n \<longrightarrow> isProvider s n)"
  then show "isProvider (exec env (sender, now, c) s) (owner (exec env (sender, now, c) s))"
    by (cases c)
      (auto simp: exec_def op_defs split: option.splits if_splits sum.splits prod.splits)
qed

theorem owner_provider_preserved_witness:
  "isProvider (constructor 1) (owner (constructor 1)) \<and>
   isProvider (exec sample_env (1, 0, AddProvider 2) (constructor 1))
     (owner (exec sample_env (1, 0, AddProvider 2) (constructor 1))) \<and>
   isProvider (exec sample_env (1, 0, AddProvider 2) (constructor 1)) 2 \<and>
   owner (exec sample_env (1, 10, TransferOwnership 2)
            (exec sample_env (1, 0, AddProvider 2) (constructor 1))) = 2 \<and>
   isProvider
     (exec sample_env (1, 10, TransferOwnership 2)
        (exec sample_env (1, 0, AddProvider 2) (constructor 1)))
     (owner (exec sample_env (1, 10, TransferOwnership 2)
        (exec sample_env (1, 0, AddProvider 2) (constructor 1))))"
  using owner_provider_preserved
    [of 1 "exec sample_env (1, 0, AddProvider 2) (constructor 1)" "TransferOwnership 2"
      sample_env 1 10]
  by (simp add: eval_defs)

text \<open>
  C8 as stated fails: the owner removes itself from the providers and stays owner; and
  the owner transfers ownership to address 2, which is no provider.
\<close>

theorem owner_not_always_provider:
  "owner (exec sample_env (1, 0, RemoveProvider 1) (constructor 1)) = 1 \<and>
   \<not> isProvider (exec sample_env (1, 0, RemoveProvider 1) (constructor 1))
       (owner (exec sample_env (1, 0, RemoveProvider 1) (constructor 1))) \<and>
   \<not> isProvider (exec sample_env (1, 0, TransferOwnership 2) (constructor 1))
       (owner (exec sample_env (1, 0, TransferOwnership 2) (constructor 1)))"
  by (simp add: eval_defs)

subsection \<open>Submissions\<close>

text \<open>
  C6: a \<open>submitReputationUpdate\<close> that fails a guard (the caller is no provider, the
  contract is paused, the cooldown is active, or the batch is closed or invalid) reverts
  and leaves the whole storage, the caller's \<open>lastSubmissionTime\<close> included, as it was;
  and a call that succeeds has passed every guard and has set the caller's
  \<open>lastSubmissionTime\<close> to the block's timestamp.
\<close>

theorem submit_rejected_keeps_state:
  "(\<not> isProvider s sender \<or> paused s \<or> respectCooldown sender now s = Some CooldownActive
      \<or> \<not> isValidBatch s b \<longrightarrow>
      (\<exists>e. submitReputationUpdate sender now b d f s = Inl e) \<and>
      exec env (sender, now, SubmitReputationUpdate b d f) s = s) \<and>
   (\<forall>s'. submitReputationUpdate sender now b d f s = Inr s' \<longrightarrow>
      isProvider s sender \<and> \<not> paused s \<and> respectCooldown sender now s = None \<and>
      isValidBatch s b \<and>
      lastSubmissionTime s' = (lastSubmissionTime s)(sender := now))"
proof (intro conjI impI allI)
  assume a: "\<not> isProvider s sender \<or> paused s
      \<or> respectCooldown sender now s = Some CooldownActive \<or> \<not> isValidBatch s b"
  then have "isl (submitReputationUpdate sender now b d f s)"
    by (intro submit_fail) auto
  then show e: "\<exists>e. submitReputationUpdate sender now b d f s = Inl e"
    by (cases "submitReputationUpdate sender now b d f s") auto
  then show "exec env (sender, now, SubmitReputationUpdate b d f) s = s"
    by (auto simp: exec_def)
qed (auto dest: submit_ok)

theorem submit_rejected_keeps_state_witness:
  "respectCooldown 1 110 sample_submitted = Some CooldownActive \<and>
   submitReputationUpdate 1 110 1 33 44 sample_submitted = Inl CooldownActive \<and>
   exec sample_env (1, 110, SubmitReputationUpdate 1 33 44) sample_submitted = sample_submitted \<and>
   lastSubmissionTime sample_submitted 1 = 100 \<and>
   \<not> isl (submitReputationUpdate 1 160 1 33 44 sample_submitted) \<and>
   lastSubmissionTime (projr (submitReputationUpdate 1 160 1 33 44 sample_submitted)) 1 = 160"
proof -
  have a: "respectCooldown 1 110 sample_submitted = Some CooldownActive"
    "submitReputationUpdate 1 110 1 33 44 sample_submitted = Inl CooldownActive"
    "lastSubmissionTime sample_submitted 1 = 100"
    by (simp_all add: sample_submitted_def eval_defs)
  have b: "submitReputationUpdate 1 160 1 33 44 sample_submitted
      = Inr (exec sample_env (1, 160, SubmitReputationUpdate 1 33 44) sample_submitted)"
    by (simp add: sample_submitted_def eval_defs)
  have "exec sample_env (1, 110, SubmitReputationUpdate 1 33 44) sample_submitted
      = sample_submitted"
    using submit_rejected_keeps_state [of sample_submitted 1 110 1 33 44 sample_env] a(1)
    by blast
  moreover have "lastSubmissionTime
      (exec sample_env (1, 160, SubmitReputationUpdate 1 33 44) sample_submitted)
      = (lastSubmissionTime sample_submitted)(1 := 160)"
    using submit_rejected_keeps_state [of sample_submitted 1 160 1 33 44 sample_env] b
    by blast
  ultimately show ?thesis
    using a by (simp add: b)
qed

text \<open>
  C10: \<open>submitReputationUpdate\<close> accepts a submission to every batch id \<open>b\<close> with
  \<open>1 \<le> b \<le> currentBatchId\<close> whose open flag is set, whether or not it is the batch
  opened last (the caller being a provider, the contract unpaused, the cooldown over and
  the counters below their maximum); and \<open>openBatch\<close> opens the next id without closing
  any batch that was open, so several batches accept submissions at the same time.
\<close>

theorem submit_accepts_every_open_batch:
  "(isProvider s sender \<and> \<not> paused s \<and> respectCooldown sender now s = None \<and>
    1 \<le> b \<and> b \<le> currentBatchId s \<and> isBatchOpen s b \<and>
    unat (submissionsInBatch s b) + 1 < 2 ^ 256 \<and> unat (submissionsCount s b) + 1 < 2 ^ 256 \<longrightarrow>
      (\<exists>s'. submitReputationUpdate sender now b d f s = Inr s' \<and>
            encryptedReputationUpdates s' b (submissionsInBatch s b) = d \<and>
            encryptedIsMalicious s' b (submissionsInBatch s b) = f \<and>
            submissionsCount s' b = submissionsCount s b + 1)) \<and>
   (\<forall>s1. openBatch ownr s = Inr s1 \<longrightarrow>
      currentBatchId s1 = currentBatchId s + 1 \<and> isBatchOpen s1 (currentBatchId s1) \<and>
      (\<forall>b'. isBatchOpen s b' \<longrightarrow> isBatchOpen s1 b'))"
proof (intro conjI impI allI)
  assume "isProvider s sender \<and> \<not> paused s \<and> respectCooldown sender now s = None \<and>
    1 \<le> b \<and> b \<le> currentBatchId s \<and> isBatchOpen s b \<and>
    unat (submissionsInBatch s b) + 1 < 2 ^ 256 \<and> unat (submissionsCount s b) + 1 < 2 ^ 256"
  then show "\<exists>s'. submitReputationUpdate sender now b d f s = Inr s' \<and>
            encryptedReputationUpdates s' b (submissionsInBatch s b) = d \<and>
            encryptedIsMalicious s' b (submissionsInBatch s b) = f \<and>
            submissionsCount s' b = submissionsCount s b + 1"
    by (intro submit_accepts) simp_all
next
  fix s1 assume o: "openBatch ownr s = Inr s1"
  show "currentBatchId s1 = currentBatchId s + 1"
    using openBatch_keeps [OF o] by blast
  show "isBatchOpen s1 (currentBatchId s1)"
    using openBatch_keeps [OF o] by blast
  fix b' assume "isBatchOpen s b'"
  then show "isBatchOpen s1 b'"
    using openBatch_keeps [OF o] by blast
qed

theorem submit_accepts_every_open_batch_witness:
  "currentBatchId sample_two_open = 2 \<and>
   isBatchOpen sample_two_open 1 \<and> isBatchOpen sample_two_open 2 \<and>
   submissionsCount sample_two_open 2 = 1 \<and>
   \<not> isl (submitReputationUpdate 1 200 1 33 44 sample_two_open) \<and>
   submissionsCount (projr (submitReputationUpdate 1 200 1 33 44 sample_two_open)) 1 = 1 \<and>
   \<not> isl (openBatch 1 sample_open) \<and>
   isBatchOpen (projr (openBatch 1 sample_open)) 1 \<and>
   isBatchOpen (projr (openBatch 1 sample_open)) 2"
proof -
  have a: "currentBatchId sample_two_open = 2" "isBatchOpen sample_two_open 1"
    "isBatchOpen sample_two_open 2" "submissionsCount sample_two_open 2 = 1"
    "isProvider sample_two_open 1" "\<not> paused sample_two_open"
    "respectCooldown 1 200 sample_two_open = None"
    "submissionsInBatch sample_two_open 1 = 0" "submissionsCount sample_two_open 1 = 0"
    by (simp_all add: sample_two_open_def eval_defs)
  have b: "openBatch 1 sample_open = Inr (exec sample_env (1, 10, OpenBatch) sample_open)"
    "isBatchOpen sample_open 1" "currentBatchId sample_open = 1"
    by (simp_all add: sample_open_def eval_defs)
  show ?thesis
    using submit_accepts_every_open_batch [of sample_two_open 1 200 1 33 44 1]
      submit_accepts_every_open_batch [of sample_open 1 200 1 33 44 1]
    by (auto simp: a b)
qed

subsection \<open>Cooldown\<close>

text \<open>
  The cooldown check does not read \<open>lastDecryptionRequestTime\<close>: that mapping is written
  by \<open>requestBatchDecryption\<close> and read nowhere.
\<close>

lemma respectCooldown_ignores_request_time:
  "respectCooldown sender now (s\<lparr> lastDecryptionRequestTime := m \<rparr>)
     = respectCooldown sender now s"
  by (simp add: respectCooldown_def)

text \<open>
  C4 (the two cooldowns are independent per action class) does not hold of the code,
  which guards both functions with the one modifier reading \<open>lastSubmissionTime\<close>. The
  owner, who has never requested a decryption, submits at time 100 and is refused a
  request at time 110 with \<open>CooldownActive\<close>; and one second after a request accepted at
  time 170, a second request passes the cooldown check.
\<close>

theorem request_cooldown_reads_submission_time:
  "lastDecryptionRequestTime sample_submitted 1 = 0 \<and>
   lastSubmissionTime sample_submitted 1 = 100 \<and>
   requestBatchDecryption sample_env 1 110 1 7 sample_submitted = Inl CooldownActive \<and>
   lastDecryptionRequestTime
     (exec sample_env (1, 170, RequestBatchDecryption 1 7) sample_submitted) 1 = 170 \<and>
   \<not> isl (requestBatchDecryption sample_env 1 171 1 8
            (exec sample_env (1, 170, RequestBatchDecryption 1 7) sample_submitted))"
  by (simp add: sample_submitted_def eval_defs collectCts_cases orderedHandles_def)

subsection \<open>The decryption callback\<close>

text \<open>
  C1: the callback succeeds at most once per request id. After \<open>myCallback\<close> has
  succeeded for \<open>r\<close>, and whatever transactions follow (the oracle handing the id \<open>r\<close>
  to no later request), every call of \<open>myCallback\<close> with \<open>r\<close> reverts with
  \<open>ReplayDetected\<close> and leaves storage unchanged.
\<close>

theorem callback_succeeds_at_most_once:
  assumes "myCallback env r cleartexts proofBytes s = Inr s1"
    and "\<forall>tx \<in> set txs. \<not> requestsId r tx"
  shows "myCallback env r cleartexts' proofBytes' (run env txs s1) = Inl ReplayDetected \<and>
         exec env (sender, now, MyCallback r cleartexts' proofBytes') (run env txs s1)
           = run env txs s1"
proof -
  have "processed (decryptionContexts (run env txs s1) r)"
    using run_context [OF assms(2), of env s1] myCallback_marks [OF assms(1)] by simp
  then have "myCallback env r cleartexts' proofBytes' (run env txs s1) = Inl ReplayDetected"
    by (simp add: myCallback_def)
  then show ?thesis by (simp add: exec_def)
qed

theorem callback_succeeds_at_most_once_witness:
  "myCallback sample_env 7 cleartexts_41 [1] sample_requested = Inr sample_processed \<and>
   myCallback sample_env 7 cleartexts_41 [1]
     (run sample_env
        [(1, 400, SubmitReputationUpdate 1 55 66), (1, 500, RequestBatchDecryption 1 8)]
        sample_processed) = Inl ReplayDetected \<and>
   exec sample_env (9, 600, MyCallback 7 cleartexts_41 [1])
     (run sample_env
        [(1, 400, SubmitReputationUpdate 1 55 66), (1, 500, RequestBatchDecryption 1 8)]
        sample_processed)
     = run sample_env
        [(1, 400, SubmitReputationUpdate 1 55 66), (1, 500, RequestBatchDecryption 1 8)]
        sample_processed"
  using callback_succeeds_at_most_once
    [of sample_env 7 cleartexts_41 "[1]" sample_requested sample_processed
      "[(1, 400, SubmitReputationUpdate 1 55 66), (1, 500, RequestBatchDecryption 1 8)]"
      cleartexts_41 "[1]" 9 600]
  by (simp add: sample_processed_def exec_def sample_callback)

text \<open>
  C2: let \<open>requestBatchDecryption\<close> for batch \<open>b\<close> have stored a context under \<open>r\<close>, and
  let at least one submission to \<open>b\<close> be accepted among the transactions that follow (the
  oracle handing \<open>r\<close> to no later request). If the context is still pending, the
  callback for \<open>r\<close> reverts with \<open>StateMismatch\<close>: the handle list of \<open>b\<close> has grown, so
  the digest over the current list differs from the stored one, and the context stays
  unprocessed. The digest function is assumed not to collide on the frozen and the
  current list, and the batch to hold fewer than \<open>2^255\<close> submissions.
\<close>

theorem callback_after_submission_StateMismatch:
  assumes req: "requestBatchDecryption env ownr t0 b r s0 = Inr s1"
    and txs: "txs = pre @ (p, t, SubmitReputationUpdate b d f) # post"
    and acc: "submitReputationUpdate p t b d f (run env pre s1) = Inr s'"
    and fresh: "\<forall>tx \<in> set txs. \<not> requestsId r tx"
    and pending: "\<not> processed (decryptionContexts (run env txs s1) r)"
    and nowrap: "unat (submissionsCount (run env txs s1) b) < 2 ^ 255"
    and cf: "collision_free_on env (orderedHandles s1 b) (orderedHandles (run env txs s1) b)"
  shows "myCallback env r cleartexts proofBytes (run env txs s1) = Inl StateMismatch \<and>
         hashCiphertexts env (orderedHandles (run env txs s1) b)
           \<noteq> stateHash (decryptionContexts (run env txs s1) r) \<and>
         \<not> processed (decryptionContexts
               (exec env (sender, now, MyCallback r cleartexts proofBytes) (run env txs s1)) r)"
proof -
  let ?s2 = "run env txs s1"
  note st = request_stores [OF req]
  have ctx: "batchId (decryptionContexts ?s2 r) = b"
    "stateHash (decryptionContexts ?s2 r) = hashCiphertexts env (orderedHandles s1 b)"
    using run_context [OF fresh, of env s1] st by simp_all
  have ex: "exec env (p, t, SubmitReputationUpdate b d f) (run env pre s1) = s'"
    using acc by (simp add: exec_def)
  have s2: "?s2 = run env post s'"
    using ex by (simp add: txs run_append)
  have "unat (submissionsCount s1 b) \<le> unat (submissionsCount (run env pre s1) b)"
    by (rule run_count_mono)
  moreover have "unat (submissionsCount s' b) = unat (submissionsCount (run env pre s1) b) + 1"
    by (rule submit_count_strict [OF acc])
  moreover have "unat (submissionsCount s' b) \<le> unat (submissionsCount ?s2 b)"
    unfolding s2 by (rule run_count_mono)
  ultimately have lt: "unat (submissionsCount s1 b) < unat (submissionsCount ?s2 b)"
    by linarith
  then have "length (orderedHandles s1 b) \<noteq> length (orderedHandles ?s2 b)"
    by (simp add: length_orderedHandles)
  then have "orderedHandles s1 b \<noteq> orderedHandles ?s2 b"
    by auto
  with cf have ne: "hashCiphertexts env (orderedHandles ?s2 b)
      \<noteq> stateHash (decryptionContexts ?s2 r)"
    by (simp add: collision_free_on_def ctx)
  have cb: "myCallback env r cleartexts proofBytes ?s2 = Inl StateMismatch"
    using pending ne nowrap by (simp add: myCallback_def Let_def ctx collectCts_cases)
  then have "exec env (sender, now, MyCallback r cleartexts proofBytes) ?s2 = ?s2"
    by (simp add: exec_def)
  with cb ne pending show ?thesis by simp
qed

theorem callback_after_submission_StateMismatch_witness:
  "requestBatchDecryption sample_env 1 200 1 7 sample_submitted = Inr sample_pending \<and>
   \<not> isl (submitReputationUpdate 1 300 1 33 44 sample_pending) \<and>
   myCallback sample_env 7 cleartexts_41 [1]
     (run sample_env [(1, 300, SubmitReputationUpdate 1 33 44), (1, 400, CloseBatch)]
        sample_pending)
     = Inl StateMismatch \<and>
   \<not> processed (decryptionContexts
        (exec sample_env (9, 500, MyCallback 7 cleartexts_41 [1])
          (run sample_env [(1, 300, SubmitReputationUpdate 1 33 44), (1, 400, CloseBatch)]
             sample_pending)) 7)"
proof -
  note p = sample_pending_run
  have a: "submitReputationUpdate 1 300 1 33 44 (run sample_env [] sample_pending)
             = Inr (exec sample_env (1, 300, SubmitReputationUpdate 1 33 44) sample_pending)"
    by (simp add: p eval_defs collectCts_cases orderedHandles_def)
  have e: "\<not> processed (decryptionContexts
        (run sample_env [(1, 300, SubmitReputationUpdate 1 33 44), (1, 400, CloseBatch)]
           sample_pending) 7)"
    "unat (submissionsCount
        (run sample_env [(1, 300, SubmitReputationUpdate 1 33 44), (1, 400, CloseBatch)]
           sample_pending) 1)
      < 2 ^ 255"
    "collision_free_on sample_env (orderedHandles sample_pending 1)
       (orderedHandles
         (run sample_env [(1, 300, SubmitReputationUpdate 1 33 44), (1, 400, CloseBatch)]
            sample_pending) 1)"
    by (simp_all add: p eval_defs collectCts_cases orderedHandles_def collision_free_on_def
        upt_conv_Cons)
  show ?thesis
    using callback_after_submission_StateMismatch
      [OF sample_pending_request _ a _ e, of "[(1, 400, CloseBatch)]" cleartexts_41 "[1]" 9 500] a
    by (simp add: sample_pending_request)
qed

text \<open>
  C3, as the code has it: \<open>myCallback\<close> tests only the \<open>processed\<close> flag, which an id
  that was never stored reads as false, and goes on to the digest check with the default
  context (batch 0, digest 0). In every state reached from the constructor by
  transactions none of which is a request under \<open>r\<close>, the callback for \<open>r\<close> reverts
  with \<open>StateMismatch\<close>, provided the digest of the empty handle list is not the zero
  word.
\<close>

theorem callback_unknown_request_StateMismatch:
  assumes "hashCiphertexts env [] \<noteq> 0" "\<forall>tx \<in> set txs. \<not> requestsId r tx"
  shows "myCallback env r cleartexts proofBytes (run env txs (constructor a))
           = Inl StateMismatch"
proof -
  have "fresh_context (constructor a) r"
    by (simp add: fresh_context_def constructor_def)
  then show ?thesis
    using run_fresh [OF assms(1) _ assms(2)] callback_fresh [OF assms(1)] by blast
qed

theorem callback_unknown_request_StateMismatch_witness:
  "hashCiphertexts sample_env [] \<noteq> 0 \<and>
   myCallback sample_env 8 cleartexts_41 [1] sample_requested = Inl StateMismatch"
  using callback_unknown_request_StateMismatch
    [of sample_env
      "[(1, 0, OpenBatch), (1, 100, SubmitReputationUpdate 1 11 22),
        (1, 200, SubmitReputationUpdate 1 33 44), (1, 300, RequestBatchDecryption 1 7)]"
      8 cleartexts_41 "[1]" 1]
  by (simp add: sample_env_empty sample_requested_def)

text \<open>
  C3 as stated fails: on the freshly deployed contract, where no context was ever
  stored, the callback for request id 5 does not revert with \<open>ReplayDetected\<close>.
\<close>

theorem callback_unknown_request_not_ReplayDetected:
  "myCallback sample_env 5 [] [] (constructor 1) = Inl StateMismatch \<and>
   myCallback sample_env 5 [] [] (constructor 1) \<noteq> Inl ReplayDetected"
  by (simp add: myCallback_def constructor_def collectCts_zero sample_env_empty)

text \<open>
  C5 (the decode step walks the buffer by a running offset and rejects a buffer of the
  wrong length) does not hold of the code. Every delta is decoded from the head of the
  whole buffer (lemma \<open>decodeLoop_deltas\<close>), and the length is never compared with an
  expected total. For the batch of two submissions of \<open>sample_requested\<close>: a buffer of 41
  bytes is accepted, with both deltas read from the same first word; the packed buffer of
  \<open>2 * (4 + 1)\<close> bytes that the loop's offsets describe is rejected; and so is the ABI
  encoding of the four values, whose first delta is not zero.
\<close>

theorem decode_reads_every_delta_from_head:
  "length cleartexts_41 = 41 \<and>
   myCallback sample_env 7 cleartexts_41 [1] sample_requested =
     Inr (sample_requested
            \<lparr> decryptionContexts :=
                 (decryptionContexts sample_requested)
                   (7 := (decryptionContexts sample_requested 7)\<lparr> processed := True \<rparr>),
               events := events sample_requested @
                 [DecryptionCompleted 7 1 [0, 0] [False, True]] \<rparr>) \<and>
   length cleartexts_packed = 10 \<and>
   myCallback sample_env 7 cleartexts_packed [1] sample_requested = Inl Revert \<and>
   length cleartexts_abi = 128 \<and>
   myCallback sample_env 7 cleartexts_abi [1] sample_requested = Inl Revert"
proof -
  have cs: "\<And>c. checkSignatures sample_env 7 c [1]"
    by (simp add: sample_env_def)
  have "myCallback sample_env 7 cleartexts_packed [1] sample_requested = Inl Revert"
    using sample_requested_context
    by (simp add: myCallback_def Let_def cs collectCts_cases decodeLoop_packed)
  moreover have "myCallback sample_env 7 cleartexts_abi [1] sample_requested = Inl Revert"
    using sample_requested_context
    by (simp add: myCallback_def Let_def cs collectCts_cases decodeLoop_abi)
  moreover have "length cleartexts_41 = 41" "length cleartexts_packed = 10"
    "length cleartexts_abi = 128"
    by (simp_all add: cleartexts_41_def cleartexts_packed_def cleartexts_abi_def)
  ultimately show ?thesis
    using sample_callback by simp
qed

end
